theory Spec2Isabelle
  imports Complex_Main
begin

section \<open>Quil programs as the notebooks build them\<close>

text \<open>
  The two example notebooks build Quil programs out of gate applications, declarations
  and measurements, on qubits that are either integers or placeholders. A placeholder
  is identified by the object it is: the model numbers the placeholder objects.
  Gate angles and grid values are carried from where they are written to where they
  are stored and are never computed with: they are the real numbers they stand for.
  The statistics are computed, in float64, and the model rounds where float64 rounds.
\<close>

datatype qubit = Qubit nat | QubitPlaceholder nat

datatype memref = MemoryReference string nat

datatype instr =
    Gate string "real list" "qubit list"
  | Measurement qubit memref
  | Declare string nat

record program =
  instructions :: "instr list"
  num_shots :: nat

datatype error = RuntimeError string | ValueError | TypeError | KeyError

definition Program :: "instr list \<Rightarrow> program" where
  "Program instrs = \<lparr>instructions = instrs, num_shots = 1\<rparr>"

definition inst :: "program \<Rightarrow> instr list \<Rightarrow> program" where
  "inst p instrs = p\<lparr>instructions := instructions p @ instrs\<rparr>"

definition program_declare :: "program \<Rightarrow> string \<Rightarrow> nat \<Rightarrow> program" where
  "program_declare p name memory_size = inst p [Declare name memory_size]"

definition wrap_in_numshots_loop :: "program \<Rightarrow> nat \<Rightarrow> program" where
  "wrap_in_numshots_loop p shots = p\<lparr>num_shots := shots\<rparr>"

definition H :: "qubit \<Rightarrow> instr" where
  "H q = Gate ''H'' [] [q]"

definition CNOT :: "qubit \<Rightarrow> qubit \<Rightarrow> instr" where
  "CNOT c t = Gate ''CNOT'' [] [c, t]"

definition RX :: "real \<Rightarrow> nat \<Rightarrow> instr" where
  "RX angle q = Gate ''RX'' [angle] [Qubit q]"

definition RZ :: "real \<Rightarrow> nat \<Rightarrow> instr" where
  "RZ angle q = Gate ''RZ'' [angle] [Qubit q]"

definition CZ :: "nat \<Rightarrow> nat \<Rightarrow> instr" where
  "CZ c t = Gate ''CZ'' [] [Qubit c, Qubit t]"

definition MEASURE :: "nat \<Rightarrow> memref \<Rightarrow> instr" where
  "MEASURE q ro = Measurement (Qubit q) ro"

section \<open>NoiseInvestigation: the compiled program\<close>

definition get_compiled_prog :: "real \<Rightarrow> program" where
  "get_compiled_prog theta = Program [
      RZ (- pi / 2) 0,
      RX (- pi / 2) 0,
      RZ (- pi / 2) 1,
      RX (pi / 2) 1,
      CZ 1 0,
      RZ (- pi / 2) 1,
      RX (- pi / 2) 1,
      RZ theta 1,
      RX (pi / 2) 1,
      CZ 1 0,
      RX (pi / 2) 0,
      RZ (pi / 2) 0,
      RZ (- pi / 2) 1,
      RX (pi / 2) 1,
      RZ (- pi / 2) 1
    ]"

text \<open>
  The native gate set the notebook names: parametric RZ, RX by plus or minus a quarter
  turn, and CZ; here on the qubits 0 and 1.
\<close>

definition native_on_01 :: "instr \<Rightarrow> bool" where
  "native_on_01 i =
     ((\<exists>a q. i = RZ a q \<and> q < 2)
      \<or> (\<exists>q. (i = RX (pi / 2) q \<or> i = RX (- pi / 2) q) \<and> q < 2)
      \<or> (\<exists>c t. i = CZ c t \<and> c < 2 \<and> t < 2))"

section \<open>NoiseInvestigation: bitstrings to expectation values\<close>

text \<open>
  A float64 is a real number of the form m * 2 ^ e with an integer m of at most 53 bits
  and e from - 1074 on. An operation of float64 arithmetic returns the exact result
  rounded to the nearest such number, to the one with the even m on a tie. The numbers
  of the notebook stay far below the largest float64, so overflow is not modelled.
\<close>

definition round_half_even :: "real \<Rightarrow> int" where
  "round_half_even y =
     (let f = \<lfloor>y\<rfloor>; r = y - of_int f
      in if r < 1 / 2 then f else if 1 / 2 < r then f + 1 else if even f then f else f + 1)"

definition f64_exponent :: "real \<Rightarrow> int" where
  "f64_exponent x = max (\<lfloor>log 2 \<bar>x\<bar>\<rfloor> - 52) (- 1074)"

definition f64 :: "real \<Rightarrow> real" where
  "f64 x =
     (if x = 0 then 0
      else of_int (round_half_even (x / 2 powi f64_exponent x)) * 2 powi f64_exponent x)"

text \<open>
  The simulator hands back one row of measured bits per shot. \<open>np.mean(_, axis=0)\<close>
  averages each column, \<open>np.sum(_, axis=1)\<close> adds up each row, and the tuple assignment
  \<open>z0, z1 = ...\<close> needs exactly two columns. An empty result has no column to unpack,
  and rows of different lengths do not make a two-dimensional array.

  \<open>np.mean\<close> of integers adds them up in float64 and divides by their number. The sum
  of fewer than 2 ^ 53 bits is an integer that float64 has exactly, so only the division
  rounds. Doubling a float64 is exact; the subtraction from 1 rounds.
\<close>

definition np_mean :: "real list \<Rightarrow> real" where
  "np_mean xs = f64 (sum_list xs / real (length xs))"

definition mean_axis0 :: "int list list \<Rightarrow> real list" where
  "mean_axis0 bitstrings =
     map (\<lambda>j. np_mean (map (\<lambda>row. real_of_int (row ! j)) bitstrings))
         [0..<length (hd bitstrings)]"

definition sum_axis1 :: "int list list \<Rightarrow> int list" where
  "sum_axis1 bitstrings = map sum_list bitstrings"

definition rectangular :: "int list list \<Rightarrow> bool" where
  "rectangular bitstrings = list_all (\<lambda>row. length row = length (hd bitstrings)) bitstrings"

definition aggregate :: "int list list \<Rightarrow> error + (real \<times> real \<times> real)" where
  "aggregate bitstrings =
     (if bitstrings = [] then Inl TypeError
      else if \<not> rectangular bitstrings then Inl ValueError
      else case map (\<lambda>m. f64 (1 - 2 * m)) (mean_axis0 bitstrings) of
          [z0, z1] \<Rightarrow>
            (let zz = f64 (1 - np_mean (map (\<lambda>s. real_of_int (s mod 2))
                                         (sum_axis1 bitstrings)) * 2)
             in Inr (z0, z1, zz))
        | _ \<Rightarrow> Inl ValueError)"

definition bit_pairs :: "int list list \<Rightarrow> bool" where
  "bit_pairs bitstrings =
     list_all (\<lambda>row. length row = 2 \<and> list_all (\<lambda>b. b = 0 \<or> b = 1) row) bitstrings"

section \<open>NoiseInvestigation: the scan over the noise parameters\<close>

text \<open>
  \<open>np.linspace\<close> and \<open>np.logspace\<close> with their default end point included and base 10.
\<close>

definition linspace :: "real \<Rightarrow> real \<Rightarrow> nat \<Rightarrow> real list" where
  "linspace start stop num =
     map (\<lambda>i. start + real i * ((stop - start) / real (num - 1))) [0..<num]"

definition logspace :: "real \<Rightarrow> real \<Rightarrow> nat \<Rightarrow> real list" where
  "logspace start stop num = map (\<lambda>y. 10 powr y) (linspace start stop num)"

definition t1s :: "real list" where
  "t1s = logspace (- 6) (- 5) 3"

definition thetas :: "real list" where
  "thetas = linspace (- pi) pi 20"

text \<open>
  A record of the scan is a dictionary from column names to numbers, kept as the list of
  its items in insertion order. The library's \<open>add_decoherence_noise\<close> and the
  simulator's \<open>qc.run\<close> are not part of the notebook: the scan takes both as arguments.
\<close>

type_synonym scan_record = "(string \<times> real) list"

type_synonym noise_fn = "program \<Rightarrow> real \<Rightarrow> real \<Rightarrow> program"

type_synonym run_fn = "program \<Rightarrow> int list list"

definition noisy_job :: "noise_fn \<Rightarrow> real \<Rightarrow> real \<Rightarrow> program" where
  "noisy_job add_decoherence_noise theta t1 =
     (let prog = program_declare (get_compiled_prog theta) ''ro'' 2;
          noisy = inst (add_decoherence_noise prog t1 (t1 / 2))
                    [MEASURE 0 (MemoryReference ''ro'' 0),
                     MEASURE 1 (MemoryReference ''ro'' 1)]
      in wrap_in_numshots_loop noisy 1000)"

definition scan_body :: "noise_fn \<Rightarrow> run_fn \<Rightarrow> real \<Rightarrow> real \<Rightarrow> error + scan_record" where
  "scan_body add_decoherence_noise qc_run theta t1 =
     (let bitstrings = qc_run (noisy_job add_decoherence_noise theta t1)
      in case aggregate bitstrings of
           Inl e \<Rightarrow> Inl e
         | Inr (z0, z1, zz) \<Rightarrow>
             Inr [(''z0'', z0), (''z1'', z1), (''zz'', zz), (''theta'', theta), (''t1'', t1)])"

text \<open>
  The two loops. An exception leaves the loops at once; the records appended until then
  stay in the list, so the failing outcome carries them.
\<close>

fun inner_loop ::
  "noise_fn \<Rightarrow> run_fn \<Rightarrow> real \<Rightarrow> real list \<Rightarrow> scan_record list
     \<Rightarrow> (error \<times> scan_record list) + scan_record list" where
  "inner_loop noise qc_run theta [] records = Inr records"
| "inner_loop noise qc_run theta (t1 # rest) records =
     (case scan_body noise qc_run theta t1 of
        Inl e \<Rightarrow> Inl (e, records)
      | Inr record \<Rightarrow> inner_loop noise qc_run theta rest (records @ [record]))"

fun outer_loop ::
  "noise_fn \<Rightarrow> run_fn \<Rightarrow> real list \<Rightarrow> scan_record list
     \<Rightarrow> (error \<times> scan_record list) + scan_record list" where
  "outer_loop noise qc_run [] records = Inr records"
| "outer_loop noise qc_run (theta # rest) records =
     (case inner_loop noise qc_run theta t1s records of
        Inl failed \<Rightarrow> Inl failed
      | Inr records' \<Rightarrow> outer_loop noise qc_run rest records')"

definition records ::
  "noise_fn \<Rightarrow> run_fn \<Rightarrow> (error \<times> scan_record list) + scan_record list" where
  "records noise qc_run = outer_loop noise qc_run thetas []"

definition appended :: "(error \<times> scan_record list) + scan_record list \<Rightarrow> scan_record list" where
  "appended outcome = (case outcome of Inl (e, rs) \<Rightarrow> rs | Inr rs \<Rightarrow> rs)"

definition two_columns :: "int list list \<Rightarrow> bool" where
  "two_columns bitstrings = (bitstrings \<noteq> [] \<and> list_all (\<lambda>row. length row = 2) bitstrings)"

definition bits :: "int list list \<Rightarrow> bool" where
  "bits bitstrings = list_all (list_all (\<lambda>b. b = 0 \<or> b = 1)) bitstrings"

definition in_unit_range :: "scan_record \<Rightarrow> string \<Rightarrow> bool" where
  "in_unit_range record key =
     (case map_of record key of None \<Rightarrow> False | Some v \<Rightarrow> - 1 \<le> v \<and> v \<le> 1)"

definition bounded_record :: "scan_record \<Rightarrow> bool" where
  "bounded_record r = (in_unit_range r ''z0'' \<and> in_unit_range r ''z1'' \<and> in_unit_range r ''zz'')"

section \<open>QubitPlaceholder: the library calls of the notebook\<close>

text \<open>
  Modelled from the spec: the method \<open>Program.out\<close> of the library, which is not among
  the sources. The spec has "a runtime error raised by the external library when an
  unaddressed placeholder is used"; a program without placeholders gives its Quil text,
  kept here as its list of instructions. The wording of the error message is the
  library's own; \<open>unaddressed\<close> stands for it.
\<close>

fun instr_qubits :: "instr \<Rightarrow> qubit list" where
  "instr_qubits (Gate name params qubits) = qubits"
| "instr_qubits (Measurement q ro) = [q]"
| "instr_qubits (Declare name memory_size) = []"

fun is_placeholder :: "qubit \<Rightarrow> bool" where
  "is_placeholder (QubitPlaceholder k) = True"
| "is_placeholder (Qubit i) = False"

definition program_qubits :: "program \<Rightarrow> qubit list" where
  "program_qubits p = concat (map instr_qubits (instructions p))"

type_synonym quil = "instr list"

definition unaddressed :: string where
  "unaddressed = ''Qubit has not been assigned an index''"

definition out :: "program \<Rightarrow> error + quil" where
  "out p =
     (if list_ex is_placeholder (program_qubits p) then Inl (RuntimeError unaddressed)
      else Inr (instructions p))"

text \<open>
  Modelled from the spec: the function \<open>address_qubits\<close> and \<open>QubitPlaceholder.register\<close>
  of the library, which are not among the sources. The spec has a placeholder "resolved
  to a concrete index later via an explicit or default mapping" and "addressing with an
  explicit mapping assigns exactly the specified physical qubit indices"; the notebook
  adds that by default the qubits are addressed from 0 on. The default mapping numbers
  the placeholders in the order in which the program first mentions them. A mapping is
  a dictionary, kept as the list of its items and read as Python reads it: a
  placeholder that is not a key raises KeyError. Qubits that are integers already stay
  as they are. Neither the spec nor the notebook says where the addressed program
  lives; the model keeps it as a further object of the store and returns its reference.
  The properties below are about the instructions of the returned program.
\<close>

type_synonym qubit_mapping = "(qubit \<times> nat) list"

fun first_seen :: "qubit list \<Rightarrow> qubit list \<Rightarrow> qubit list" where
  "first_seen seen [] = seen"
| "first_seen seen (q # qs) =
     first_seen (if is_placeholder q \<and> q \<notin> set seen then seen @ [q] else seen) qs"

definition default_mapping :: "program \<Rightarrow> qubit_mapping" where
  "default_mapping p =
     (let qubits = first_seen [] (program_qubits p) in zip qubits [0..<length qubits])"

definition address_qubit :: "qubit_mapping \<Rightarrow> qubit \<Rightarrow> error + qubit" where
  "address_qubit m q =
     (if is_placeholder q
      then (case map_of m q of None \<Rightarrow> Inl KeyError | Some i \<Rightarrow> Inr (Qubit i))
      else Inr q)"

fun address_all :: "qubit_mapping \<Rightarrow> qubit list \<Rightarrow> error + qubit list" where
  "address_all m [] = Inr []"
| "address_all m (q # qs) =
     (case address_qubit m q of
        Inl e \<Rightarrow> Inl e
      | Inr q' \<Rightarrow> (case address_all m qs of Inl e \<Rightarrow> Inl e | Inr qs' \<Rightarrow> Inr (q' # qs')))"

fun address_instr :: "qubit_mapping \<Rightarrow> instr \<Rightarrow> error + instr" where
  "address_instr m (Gate name params qubits) =
     (case address_all m qubits of Inl e \<Rightarrow> Inl e | Inr qs \<Rightarrow> Inr (Gate name params qs))"
| "address_instr m (Measurement q ro) =
     (case address_qubit m q of Inl e \<Rightarrow> Inl e | Inr q' \<Rightarrow> Inr (Measurement q' ro))"
| "address_instr m (Declare name memory_size) = Inr (Declare name memory_size)"

fun address_instrs :: "qubit_mapping \<Rightarrow> instr list \<Rightarrow> error + instr list" where
  "address_instrs m [] = Inr []"
| "address_instrs m (i # rest) =
     (case address_instr m i of
        Inl e \<Rightarrow> Inl e
      | Inr i' \<Rightarrow>
          (case address_instrs m rest of Inl e \<Rightarrow> Inl e | Inr rest' \<Rightarrow> Inr (i' # rest')))"

record heap =
  objects :: "nat \<Rightarrow> program"
  next_ref :: nat

definition new_object :: "heap \<Rightarrow> program \<Rightarrow> heap \<times> nat" where
  "new_object h p =
     (h\<lparr>objects := (objects h)(next_ref h := p), next_ref := Suc (next_ref h)\<rparr>, next_ref h)"

definition address_qubits :: "heap \<Rightarrow> nat \<Rightarrow> qubit_mapping option \<Rightarrow> error + (heap \<times> nat)" where
  "address_qubits h program qubit_mapping =
     (let p = objects h program;
          m = (case qubit_mapping of None \<Rightarrow> default_mapping p | Some m \<Rightarrow> m)
      in case address_instrs m (instructions p) of
           Inl e \<Rightarrow> Inl e
         | Inr result \<Rightarrow> Inr (new_object h (p\<lparr>instructions := result\<rparr>)))"


text \<open>
  What addressing with a mapping does to one qubit: a placeholder becomes the qubit of
  the index the mapping has for it, any other qubit stays.
\<close>

definition resolved_by :: "qubit_mapping \<Rightarrow> qubit \<Rightarrow> qubit \<Rightarrow> bool" where
  "resolved_by m q q' =
     (if is_placeholder q then (case map_of m q of None \<Rightarrow> False | Some i \<Rightarrow> q' = Qubit i)
      else q' = q)"

section \<open>QubitPlaceholder: the cells of the notebook\<close>

text \<open>
  The notebook's state: the program objects, the variable \<open>prog\<close> (a reference) and
  what has been printed. The placeholders \<open>q0\<close> and \<open>q1\<close> are two different objects.
  The cell with \<open>try\<close> takes the library's \<open>out\<close> as an argument, so that what it
  catches and what it lets through can be read off for any error that \<open>out\<close> may raise.
\<close>

datatype printed = Quil quil | Message string

record notebook =
  memory :: heap
  prog :: nat
  stdout :: "printed list"

definition print :: "notebook \<Rightarrow> printed \<Rightarrow> notebook" where
  "print nb x = nb\<lparr>stdout := stdout nb @ [x]\<rparr>"

definition q0 :: qubit where
  "q0 = QubitPlaceholder 0"

definition q1 :: qubit where
  "q1 = QubitPlaceholder 1"

definition empty_notebook :: notebook where
  "empty_notebook =
     \<lparr>memory = \<lparr>objects = (\<lambda>r. Program []), next_ref = 0\<rparr>, prog = 0, stdout = []\<rparr>"

definition cell_placeholders :: "notebook \<Rightarrow> notebook" where
  "cell_placeholders nb =
     (let (h, r) = new_object (memory nb) (Program [H q0, CNOT q0 q1]);
          nb = nb\<lparr>memory := h, prog := r\<rparr>
      in print nb (Quil (instructions (objects h r))))"

definition cell_try_out :: "(program \<Rightarrow> error + quil) \<Rightarrow> notebook \<Rightarrow> error + notebook" where
  "cell_try_out out_method nb =
     (case out_method (objects (memory nb) (prog nb)) of
        Inr text \<Rightarrow> Inr (print nb (Quil text))
      | Inl (RuntimeError e) \<Rightarrow> Inr (print nb (Message e))
      | Inl other \<Rightarrow> Inl other)"

definition cell_address :: "qubit_mapping option \<Rightarrow> notebook \<Rightarrow> error + notebook" where
  "cell_address qubit_mapping nb =
     (case address_qubits (memory nb) (prog nb) qubit_mapping of
        Inl e \<Rightarrow> Inl e
      | Inr (h, r) \<Rightarrow> Inr (print (nb\<lparr>memory := h\<rparr>) (Quil (instructions (objects h r)))))"

definition cell_default :: "notebook \<Rightarrow> error + notebook" where
  "cell_default nb = cell_address None nb"

definition cell_explicit :: "notebook \<Rightarrow> error + notebook" where
  "cell_explicit nb = cell_address (Some [(q0, 14), (q1, 19)]) nb"

section \<open>Properties of float64 rounding\<close>

lemma round_half_even_error: "\<bar>of_int (round_half_even y) - y\<bar> \<le> 1 / 2"
proof -
  have "of_int \<lfloor>y\<rfloor> \<le> y" "y < of_int \<lfloor>y\<rfloor> + 1" by linarith+
  then show ?thesis
    by (auto simp: round_half_even_def Let_def)
qed

lemma round_half_even_of_int: "round_half_even (of_int k) = k"
  by (simp add: round_half_even_def)

lemma round_half_even_lower: "of_int k \<le> y \<Longrightarrow> k \<le> round_half_even y"
proof -
  assume "of_int k \<le> y"
  then have "k \<le> \<lfloor>y\<rfloor>" by (simp add: le_floor_iff)
  then show ?thesis by (auto simp: round_half_even_def Let_def)
qed

lemma round_half_even_upper: "y \<le> of_int k \<Longrightarrow> round_half_even y \<le> k"
proof -
  assume le: "y \<le> of_int k"
  show ?thesis
  proof (cases "y = of_int k")
    case True
    then show ?thesis by (simp add: round_half_even_of_int)
  next
    case False
    with le have "y < of_int k" by simp
    then have "\<lfloor>y\<rfloor> < k" by (simp add: floor_less_iff)
    then have "\<lfloor>y\<rfloor> + 1 \<le> k" by simp
    then show ?thesis by (auto simp: round_half_even_def Let_def)
  qed
qed

lemma floor_log2_at:
  assumes "2 powi k \<le> \<bar>x\<bar>" "\<bar>x\<bar> < 2 powi (k + 1)"
  shows "\<lfloor>log 2 \<bar>x\<bar>\<rfloor> = k"
proof -
  have pos: "0 < \<bar>x\<bar>"
    using assms(1) zero_less_power_int[of "2::real" k] by linarith
  have lo: "2 powr real_of_int k = (2::real) powi k"
    and hi: "2 powr real_of_int (k + 1) = (2::real) powi (k + 1)"
    by (rule powr_real_of_int'; simp)+
  have "(\<lfloor>log 2 \<bar>x\<bar>\<rfloor> = k)
      = (2 powr real_of_int k \<le> \<bar>x\<bar> \<and> \<bar>x\<bar> < 2 powr real_of_int (k + 1))"
    by (rule floor_log_eq_powr_iff[OF pos]) simp
  with assms show ?thesis by (simp only: lo hi)
qed

lemma f64_at:
  assumes "2 powi (e + 52) \<le> \<bar>x\<bar>" "\<bar>x\<bar> < 2 powi (e + 53)" "- 1074 \<le> e"
  shows "f64 x = of_int (round_half_even (x / 2 powi e)) * 2 powi e"
proof -
  have "\<lfloor>log 2 \<bar>x\<bar>\<rfloor> = e + 52"
    using floor_log2_at[of "e + 52" x] assms(1,2) by (simp add: add.commute add.left_commute)
  then have e: "f64_exponent x = e" using assms(3) by (simp add: f64_exponent_def)
  have "0 < (2::real) powi (e + 52)" by (rule zero_less_power_int) simp
  with assms(1) have "0 < \<bar>x\<bar>" by linarith
  then have "x \<noteq> 0" by auto
  with e show ?thesis by (simp add: f64_def)
qed

lemma f64_exponent_unit:
  assumes "x \<noteq> 0" "\<bar>x\<bar> \<le> 1"
  shows "f64_exponent x \<le> - 52"
proof -
  have "log 2 \<bar>x\<bar> \<le> 0" using assms by simp
  then have "\<lfloor>log 2 \<bar>x\<bar>\<rfloor> \<le> 0" by (simp add: floor_le_iff)
  then show ?thesis by (simp add: f64_exponent_def)
qed

lemma f64_error_unit:
  assumes "\<bar>x\<bar> \<le> 1"
  shows "\<bar>f64 x - x\<bar> \<le> 1 / 2 ^ 53"
proof (cases "x = 0")
  case True
  then show ?thesis by (simp add: f64_def)
next
  case False
  define e where "e = f64_exponent x"
  define q :: real where "q = 2 powi e"
  have q: "0 < q" by (simp add: q_def zero_less_power_int)
  have "e \<le> - 52" using f64_exponent_unit[OF False assms] by (simp add: e_def)
  then have "q \<le> 2 powi (- 52)" unfolding q_def by (intro power_int_increasing) simp_all
  then have qle: "q \<le> 1 / 2 ^ 52" by (simp add: power_int_minus_divide)
  have "f64 x - x = (of_int (round_half_even (x / q)) - x / q) * q"
    using False q by (simp add: f64_def e_def q_def field_simps)
  then have "\<bar>f64 x - x\<bar> = \<bar>of_int (round_half_even (x / q)) - x / q\<bar> * q"
    using q by (simp add: abs_mult)
  also have "\<dots> \<le> (1 / 2) * q"
    using round_half_even_error[of "x / q"] q by (intro mult_right_mono) simp_all
  also have "\<dots> \<le> (1 / 2) * (1 / 2 ^ 52)" using qle by simp
  finally show ?thesis by simp
qed

lemma f64_range:
  assumes "lo \<le> x" "x \<le> hi" "lo \<in> {- 1, 0}" "hi \<in> {0, 1}"
  shows "lo \<le> f64 x \<and> f64 x \<le> hi"
proof (cases "x = 0")
  case True
  with assms show ?thesis by (simp add: f64_def)
next
  case False
  define e where "e = f64_exponent x"
  define q :: real where "q = 2 powi e"
  have q: "0 < q" by (simp add: q_def zero_less_power_int)
  have "\<bar>x\<bar> \<le> 1" using assms by auto
  from f64_exponent_unit[OF False this] have e: "e \<le> - 52" by (simp add: e_def)
  define N :: int where "N = 2 ^ nat (- e)"
  have Nq: "of_int N * q = 1"
    using e by (simp add: N_def q_def power_int_def flip: power_mult_distrib)
  have fx: "f64 x = of_int (round_half_even (x / q)) * q"
    using False by (simp add: f64_def e_def q_def)
  have scale: "of_int (k * N) * q = of_int k" for k :: int
    using Nq by (simp add: mult.assoc)
  have lower: "of_int k \<le> f64 x" if "of_int k \<le> x" for k :: int
  proof -
    have "of_int (k * N) * q \<le> x" using that by (simp only: scale)
    then have "of_int (k * N) \<le> x / q" by (simp only: pos_le_divide_eq[OF q])
    then have "k * N \<le> round_half_even (x / q)" by (rule round_half_even_lower)
    then have "(of_int (k * N) :: real) \<le> of_int (round_half_even (x / q))"
      by (simp only: of_int_le_iff)
    then have "of_int (k * N) * q \<le> of_int (round_half_even (x / q)) * q"
      using q by (intro mult_right_mono) simp_all
    then show ?thesis by (simp only: scale fx)
  qed
  have upper: "f64 x \<le> of_int k" if "x \<le> of_int k" for k :: int
  proof -
    have "x \<le> of_int (k * N) * q" using that by (simp only: scale)
    then have "x / q \<le> of_int (k * N)" by (simp only: pos_divide_le_eq[OF q])
    then have "round_half_even (x / q) \<le> k * N" by (rule round_half_even_upper)
    then have "(of_int (round_half_even (x / q)) :: real) \<le> of_int (k * N)"
      by (simp only: of_int_le_iff)
    then have "of_int (round_half_even (x / q)) * q \<le> of_int (k * N) * q"
      using q by (intro mult_right_mono) simp_all
    then show ?thesis by (simp only: scale fx)
  qed
  from assms lower[of "- 1"] lower[of 0] upper[of 0] upper[of 1] show ?thesis by auto
qed

lemma f64_third: "f64 (1 / 3) = 6004799503160661 / 2 ^ 54"
  using f64_at[of "- 54" "1 / 3"]
  by (simp add: power_int_minus_divide round_half_even_def Let_def)

lemma f64_zero: "f64 0 = 0"
  by (simp add: f64_def)

lemma f64_one: "f64 1 = 1"
  using f64_at[of "- 52" 1] by (simp add: power_int_minus_divide round_half_even_def Let_def)

lemma f64_minus_one: "f64 (- 1) = - 1"
  using f64_at[of "- 52" "- 1"] by (simp add: power_int_minus_divide round_half_even_def Let_def)

lemma f64_half: "f64 (1 / 2) = 1 / 2"
  using f64_at[of "- 53" "1 / 2"] by (simp add: power_int_minus_divide round_half_even_def Let_def)

lemma f64_two_thirds: "f64 (2 / 3) = 6004799503160661 / 2 ^ 53"
  using f64_at[of "- 53" "2 / 3"]
  by (simp add: power_int_minus_divide round_half_even_def Let_def)

lemma f64_z_third: "f64 (3002399751580331 / 2 ^ 53) = 3002399751580331 / 2 ^ 53"
  using f64_at[of "- 54" "3002399751580331 / 2 ^ 53"]
  by (simp add: power_int_minus_divide round_half_even_def Let_def)

lemma f64_z_minus_third: "f64 (- (1501199875790165 / 2 ^ 52)) = - (1501199875790165 / 2 ^ 52)"
  using f64_at[of "- 54" "- (1501199875790165 / 2 ^ 52)"]
  by (simp add: power_int_minus_divide round_half_even_def Let_def)

lemma rounded_expectation:
  assumes "0 \<le> mu" "mu \<le> 1"
  shows "- 1 \<le> f64 (1 - 2 * f64 mu)" "f64 (1 - 2 * f64 mu) \<le> 1"
    "\<bar>f64 (1 - 2 * f64 mu) - (1 - 2 * mu)\<bar> \<le> 3 / 2 ^ 53"
proof -
  have m: "0 \<le> f64 mu \<and> f64 mu \<le> 1"
    using f64_range[of 0 mu 1] assms by simp
  have em: "\<bar>f64 mu - mu\<bar> \<le> 1 / 2 ^ 53"
    using f64_error_unit[of mu] assms by simp
  have y: "- 1 \<le> 1 - 2 * f64 mu" "1 - 2 * f64 mu \<le> 1" using m by simp_all
  from f64_range[of "- 1" "1 - 2 * f64 mu" 1] y
  show "- 1 \<le> f64 (1 - 2 * f64 mu)" "f64 (1 - 2 * f64 mu) \<le> 1" by simp_all
  have ey: "\<bar>f64 (1 - 2 * f64 mu) - (1 - 2 * f64 mu)\<bar> \<le> 1 / 2 ^ 53"
    using f64_error_unit[of "1 - 2 * f64 mu"] y by simp
  have "\<bar>c - (1 - 2 * b)\<bar> \<le> 3 * e" if "\<bar>a - b\<bar> \<le> e" "\<bar>c - (1 - 2 * a)\<bar> \<le> e"
    for a b c e :: real
    using that by linarith
  from this[OF em ey] show "\<bar>f64 (1 - 2 * f64 mu) - (1 - 2 * mu)\<bar> \<le> 3 / 2 ^ 53"
    by simp
qed

lemma mean_unit:
  assumes "xs \<noteq> []" "\<forall>x\<in>set xs. 0 \<le> f x \<and> f x \<le> (1::real)"
  shows "0 \<le> (\<Sum>x\<leftarrow>xs. f x) / real (length xs)" "(\<Sum>x\<leftarrow>xs. f x) / real (length xs) \<le> 1"
proof -
  have lo: "0 \<le> (\<Sum>x\<leftarrow>xs. f x)"
    using assms(2) by (intro sum_list_nonneg) auto
  have hi: "(\<Sum>x\<leftarrow>xs. f x) \<le> real (length xs)"
    using assms(2) by (induction xs) auto
  have n: "0 < real (length xs)" using assms(1) by simp
  from lo n show "0 \<le> (\<Sum>x\<leftarrow>xs. f x) / real (length xs)" by simp
  from hi n show "(\<Sum>x\<leftarrow>xs. f x) / real (length xs) \<le> 1" by simp
qed

section \<open>Properties of the aggregation\<close>

lemma bit_pairs_rectangular:
  assumes "bs \<noteq> []" "bit_pairs bs"
  shows "rectangular bs" "length (hd bs) = 2"
proof -
  from assms have all2: "\<forall>row\<in>set bs. length row = 2"
    by (simp add: bit_pairs_def list_all_iff)
  with assms(1) show "length (hd bs) = 2" by simp
  with all2 show "rectangular bs" by (simp add: rectangular_def list_all_iff)
qed

lemma bit_pairs_row_sum:
  assumes "bit_pairs bs" "row \<in> set bs"
  shows "sum_list row = row ! 0 + row ! 1"
proof -
  from assms have "length row = 2" by (simp add: bit_pairs_def list_all_iff)
  then obtain a b where "row = [a, b]"
    by (cases row; cases "tl row") auto
  then show ?thesis by simp
qed

lemma aggregate_bit_pairs:
  assumes "bs \<noteq> []" "bit_pairs bs"
  shows "aggregate bs =
     Inr (f64 (1 - 2 * np_mean (map (\<lambda>row. real_of_int (row ! 0)) bs)),
          f64 (1 - 2 * np_mean (map (\<lambda>row. real_of_int (row ! 1)) bs)),
          f64 (1 - np_mean (map (\<lambda>row. real_of_int ((row ! 0 + row ! 1) mod 2)) bs) * 2))"
proof -
  have cols: "[0..<length (hd bs)] = [0, 1]"
    using bit_pairs_rectangular(2)[OF assms] by (simp add: upt_rec)
  have par: "map (\<lambda>s. real_of_int (s mod 2)) (sum_axis1 bs)
      = map (\<lambda>row. real_of_int ((row ! 0 + row ! 1) mod 2)) bs"
    using bit_pairs_row_sum[OF assms(2)] by (simp add: sum_axis1_def)
  show ?thesis
    using assms(1) bit_pairs_rectangular(1)[OF assms]
    by (simp add: aggregate_def mean_axis0_def cols par)
qed

lemma bit_pairs_row:
  assumes "bit_pairs bs" "row \<in> set bs"
  shows "\<exists>a b. row = [a, b] \<and> (a = 0 \<or> a = 1) \<and> (b = 0 \<or> b = 1)"
proof -
  from assms have len: "length row = 2" and all01: "list_all (\<lambda>b. b = 0 \<or> b = 1) row"
    by (simp_all add: bit_pairs_def list_all_iff)
  from len obtain a b where "row = [a, b]"
    by (cases row; cases "tl row") auto
  with all01 show ?thesis by simp
qed

lemma sum_list_one_minus:
  "(\<Sum>x\<leftarrow>xs. 1 - 2 * f x) = real (length xs) - 2 * (\<Sum>x\<leftarrow>xs. (f x :: real))"
  by (induction xs) (simp_all add: algebra_simps)

lemma sign_product_parity:
  assumes "bit_pairs bs" "row \<in> set bs"
  shows "(1 - 2 * real_of_int (row ! 0)) * (1 - 2 * real_of_int (row ! 1))
       = 1 - 2 * real_of_int ((row ! 0 + row ! 1) mod 2)"
  using bit_pairs_row[OF assms] by auto

lemma one_minus_twice_mean:
  assumes "xs \<noteq> []"
  shows "1 - 2 * ((\<Sum>x\<leftarrow>xs. (f x :: real)) / real (length xs))
       = (\<Sum>x\<leftarrow>xs. 1 - 2 * f x) / real (length xs)"
proof -
  have n: "real (length xs) \<noteq> 0" using assms by simp
  show ?thesis
    unfolding sum_list_one_minus using n by (simp add: diff_divide_distrib)
qed

lemma bit_columns_unit:
  assumes "bit_pairs bs"
  shows "\<forall>row\<in>set bs. 0 \<le> real_of_int (row ! 0) \<and> real_of_int (row ! 0) \<le> 1"
    and "\<forall>row\<in>set bs. 0 \<le> real_of_int (row ! 1) \<and> real_of_int (row ! 1) \<le> 1"
    and "\<forall>row\<in>set bs. 0 \<le> real_of_int ((row ! 0 + row ! 1) mod 2)
          \<and> real_of_int ((row ! 0 + row ! 1) mod 2) \<le> 1"
proof -
  show "\<forall>row\<in>set bs. 0 \<le> real_of_int (row ! 0) \<and> real_of_int (row ! 0) \<le> 1"
    using bit_pairs_row[OF assms] by fastforce
  show "\<forall>row\<in>set bs. 0 \<le> real_of_int (row ! 1) \<and> real_of_int (row ! 1) \<le> 1"
    using bit_pairs_row[OF assms] by fastforce
  have "0 \<le> k mod 2 \<and> k mod 2 \<le> 1" for k :: int
    by presburger
  then show "\<forall>row\<in>set bs. 0 \<le> real_of_int ((row ! 0 + row ! 1) mod 2)
        \<and> real_of_int ((row ! 0 + row ! 1) mod 2) \<le> 1"
    by (metis of_int_0_le_iff of_int_le_1_iff)
qed

lemma aggregate_rounded:
  assumes "bs \<noteq> []" "bit_pairs bs"
  shows "aggregate bs =
     Inr (f64 (1 - 2 * f64 ((\<Sum>row\<leftarrow>bs. real_of_int (row ! 0)) / real (length bs))),
          f64 (1 - 2 * f64 ((\<Sum>row\<leftarrow>bs. real_of_int (row ! 1)) / real (length bs))),
          f64 (1 - 2 * f64 ((\<Sum>row\<leftarrow>bs. real_of_int ((row ! 0 + row ! 1) mod 2))
                              / real (length bs))))"
  using aggregate_bit_pairs[OF assms] by (simp add: np_mean_def mult.commute)

lemma aggregate_bs0:
  "aggregate [[0, 1], [1, 1], [0, 0]]
     = Inr (3002399751580331 / 2 ^ 53, - (1501199875790165 / 2 ^ 52), 3002399751580331 / 2 ^ 53)"
proof -
  have m: "1 - 2 * f64 (1 / 3) = 3002399751580331 / 2 ^ 53"
    "1 - 2 * f64 (2 / 3) = - (1501199875790165 / 2 ^ 52)"
    by (simp_all add: f64_third f64_two_thirds)
  have "bit_pairs [[0, 1], [1, 1], [0, 0]]" by (simp add: bit_pairs_def)
  from aggregate_rounded[OF _ this]
  have "aggregate [[0, 1], [1, 1], [0, 0]]
      = Inr (f64 (1 - 2 * f64 (1 / 3)), f64 (1 - 2 * f64 (2 / 3)), f64 (1 - 2 * f64 (1 / 3)))"
    by simp
  then show ?thesis
    by (simp only: m f64_z_third f64_z_minus_third)
qed

text \<open>
  C1. For a non-empty array of measured bit pairs the aggregation returns z0, z1 and zz
  by the formulas 1 - 2 * (mean of the first bits), 1 - 2 * (mean of the second bits)
  and 1 - 2 * (mean of the parities (b0 + b1) mod 2) evaluated in float64: the mean
  is the sum over the rows divided by the number of rows and rounded, and the
  subtraction from 1 is rounded again. Each result is within 3 / 2 ^ 53 of the exact
  value of its formula. It is not that value in general: for the three rows
  01, 11, 00 the exact values are 1/3, - 1/3, 1/3 and the aggregation returns others.
\<close>

theorem aggregate_rounded_formulas:
  assumes "bs \<noteq> []" "bit_pairs bs"
  shows "\<exists>z0 z1 zz. aggregate bs = Inr (z0, z1, zz)
     \<and> z0 = f64 (1 - 2 * f64 ((\<Sum>row\<leftarrow>bs. real_of_int (row ! 0)) / real (length bs)))
     \<and> z1 = f64 (1 - 2 * f64 ((\<Sum>row\<leftarrow>bs. real_of_int (row ! 1)) / real (length bs)))
     \<and> zz = f64 (1 - 2 * f64 ((\<Sum>row\<leftarrow>bs. real_of_int ((row ! 0 + row ! 1) mod 2))
                                 / real (length bs)))
     \<and> \<bar>z0 - (1 - 2 * ((\<Sum>row\<leftarrow>bs. real_of_int (row ! 0)) / real (length bs)))\<bar> \<le> 3 / 2 ^ 53
     \<and> \<bar>z1 - (1 - 2 * ((\<Sum>row\<leftarrow>bs. real_of_int (row ! 1)) / real (length bs)))\<bar> \<le> 3 / 2 ^ 53
     \<and> \<bar>zz - (1 - 2 * ((\<Sum>row\<leftarrow>bs. real_of_int ((row ! 0 + row ! 1) mod 2))
                          / real (length bs)))\<bar> \<le> 3 / 2 ^ 53"
  using aggregate_rounded[OF assms]
    rounded_expectation(3)[OF mean_unit[OF assms(1) bit_columns_unit(1)[OF assms(2)]]]
    rounded_expectation(3)[OF mean_unit[OF assms(1) bit_columns_unit(2)[OF assms(2)]]]
    rounded_expectation(3)[OF mean_unit[OF assms(1) bit_columns_unit(3)[OF assms(2)]]]
  by simp

theorem aggregate_rounded_formulas_witness:
  "\<exists>z0 z1 zz. aggregate [[0, 1], [1, 1], [0, 0]] = Inr (z0, z1, zz)
     \<and> z0 = 3002399751580331 / 2 ^ 53 \<and> \<bar>z0 - (1 - 2 * ((0 + 1 + 0) / 3))\<bar> \<le> 3 / 2 ^ 53
     \<and> z1 = - (1501199875790165 / 2 ^ 52) \<and> \<bar>z1 - (1 - 2 * ((1 + 1 + 0) / 3))\<bar> \<le> 3 / 2 ^ 53
     \<and> zz = 3002399751580331 / 2 ^ 53 \<and> \<bar>zz - (1 - 2 * ((1 + 0 + 0) / 3))\<bar> \<le> 3 / 2 ^ 53"
proof -
  have "[[0, 1], [1, 1], [0, 0]] \<noteq> ([] :: int list list)"
    and "bit_pairs [[0, 1], [1, 1], [0, 0]]"
    by (simp_all add: bit_pairs_def)
  from aggregate_rounded_formulas[OF this] obtain z0 z1 zz where
    agg: "aggregate [[0, 1], [1, 1], [0, 0]] = Inr (z0, z1, zz)"
    and near: "\<bar>z0 - (1 - 2 * ((0 + 1 + 0) / 3))\<bar> \<le> 3 / 2 ^ 53"
      "\<bar>z1 - (1 - 2 * ((1 + 1 + 0) / 3))\<bar> \<le> 3 / 2 ^ 53"
      "\<bar>zz - (1 - 2 * ((1 + 0 + 0) / 3))\<bar> \<le> 3 / 2 ^ 53"
    by auto
  from agg have "z0 = 3002399751580331 / 2 ^ 53" "z1 = - (1501199875790165 / 2 ^ 52)"
    "zz = 3002399751580331 / 2 ^ 53"
    by (simp_all add: aggregate_bs0)
  with agg near show ?thesis by blast
qed

theorem aggregate_exact_counterexample:
  "aggregate [[0, 1], [1, 1], [0, 0]]
     = Inr (3002399751580331 / 2 ^ 53, - (1501199875790165 / 2 ^ 52), 3002399751580331 / 2 ^ 53)
   \<and> aggregate [[0, 1], [1, 1], [0, 0]]
     \<noteq> Inr (1 - 2 * ((0 + 1 + 0) / 3), 1 - 2 * ((1 + 1 + 0) / 3), 1 - 2 * ((1 + 0 + 0) / 3))"
  by (simp add: aggregate_bs0)

text \<open>
  C2. For a non-empty array of bit pairs, the zz that the aggregation computes from the
  parities in float64 is within 3 / 2 ^ 53 of the mean over the rows of the product
  of the two signs (1 - 2 * b0) * (1 - 2 * b1), which is the exact value of
  1 - 2 * mean ((b0 + b1) mod 2). The computed zz is not that mean in general, and not
  its float64 either: for the three rows 01, 11, 00 the mean of the products is 1/3.
\<close>

theorem zz_near_sign_product:
  assumes "bs \<noteq> []" "bit_pairs bs"
  shows "\<exists>z0 z1 zz. aggregate bs = Inr (z0, z1, zz)
     \<and> \<bar>zz - (\<Sum>row\<leftarrow>bs. (1 - 2 * real_of_int (row ! 0)) * (1 - 2 * real_of_int (row ! 1)))
              / real (length bs)\<bar> \<le> 3 / 2 ^ 53
     \<and> 1 - 2 * ((\<Sum>row\<leftarrow>bs. real_of_int ((row ! 0 + row ! 1) mod 2)) / real (length bs))
       = (\<Sum>row\<leftarrow>bs. (1 - 2 * real_of_int (row ! 0)) * (1 - 2 * real_of_int (row ! 1)))
           / real (length bs)"
proof -
  let ?par = "\<lambda>row. real_of_int ((row ! 0 + row ! 1) mod 2)"
  let ?prod = "\<lambda>row. (1 - 2 * real_of_int (row ! 0)) * (1 - 2 * real_of_int (row ! 1))"
  have prod: "(\<Sum>row\<leftarrow>bs. ?prod row) = (\<Sum>row\<leftarrow>bs. 1 - 2 * ?par row)"
    using sign_product_parity[OF assms(2)]
    by (intro arg_cong[where f = sum_list] map_cong refl)
  have exact: "1 - 2 * ((\<Sum>row\<leftarrow>bs. ?par row) / real (length bs))
      = (\<Sum>row\<leftarrow>bs. ?prod row) / real (length bs)"
    unfolding prod by (rule one_minus_twice_mean[OF assms(1)])
  let ?zz = "f64 (1 - 2 * f64 ((\<Sum>row\<leftarrow>bs. ?par row) / real (length bs)))"
  have agg: "\<exists>z0 z1. aggregate bs = Inr (z0, z1, ?zz)"
    using aggregate_rounded[OF assms] by simp
  have "\<bar>?zz - (1 - 2 * ((\<Sum>row\<leftarrow>bs. ?par row) / real (length bs)))\<bar> \<le> 3 / 2 ^ 53"
    by (rule rounded_expectation(3)[OF mean_unit[OF assms(1) bit_columns_unit(3)[OF assms(2)]]])
  then have "\<bar>?zz - (\<Sum>row\<leftarrow>bs. ?prod row) / real (length bs)\<bar> \<le> 3 / 2 ^ 53"
    by (simp only: exact)
  with agg exact show ?thesis by blast
qed

theorem zz_near_sign_product_witness:
  "\<exists>z0 z1 zz. aggregate [[0, 1], [1, 1], [0, 0]] = Inr (z0, z1, zz)
     \<and> \<bar>zz - ((1 - 2 * 0) * (1 - 2 * 1) + (1 - 2 * 1) * (1 - 2 * 1) + (1 - 2 * 0) * (1 - 2 * 0)) / 3\<bar>
         \<le> 3 / 2 ^ 53"
  using zz_near_sign_product[of "[[0, 1], [1, 1], [0, 0]]"]
  by (simp add: bit_pairs_def)

theorem zz_sign_product_counterexample:
  "aggregate [[0, 1], [1, 1], [0, 0]]
     = Inr (3002399751580331 / 2 ^ 53, - (1501199875790165 / 2 ^ 52), 3002399751580331 / 2 ^ 53)
   \<and> (3002399751580331 / 2 ^ 53 :: real)
     \<noteq> ((1 - 2 * 0) * (1 - 2 * 1) + (1 - 2 * 1) * (1 - 2 * 1) + (1 - 2 * 0) * (1 - 2 * 0)) / 3
   \<and> (3002399751580331 / 2 ^ 53 :: real)
     \<noteq> f64 (((1 - 2 * 0) * (1 - 2 * 1) + (1 - 2 * 1) * (1 - 2 * 1) + (1 - 2 * 0) * (1 - 2 * 0)) / 3)"
  by (simp add: aggregate_bs0 f64_third)

lemma aggregate_range:
  assumes "bs \<noteq> []" "bit_pairs bs"
  shows "\<exists>z0 z1 zz. aggregate bs = Inr (z0, z1, zz)
      \<and> - 1 \<le> z0 \<and> z0 \<le> 1 \<and> - 1 \<le> z1 \<and> z1 \<le> 1 \<and> - 1 \<le> zz \<and> zz \<le> 1"
  using aggregate_rounded[OF assms]
    rounded_expectation(1,2)[OF mean_unit[OF assms(1) bit_columns_unit(1)[OF assms(2)]]]
    rounded_expectation(1,2)[OF mean_unit[OF assms(1) bit_columns_unit(2)[OF assms(2)]]]
    rounded_expectation(1,2)[OF mean_unit[OF assms(1) bit_columns_unit(3)[OF assms(2)]]]
  by simp

lemma two_columns_aggregate:
  assumes "two_columns bs"
  shows "\<exists>z0 z1 zz. aggregate bs = Inr (z0, z1, zz)"
proof -
  from assms have ne: "bs \<noteq> []" and all2: "\<forall>row\<in>set bs. length row = 2"
    by (simp_all add: two_columns_def list_all_iff)
  from ne all2 have hd2: "length (hd bs) = 2" by simp
  with all2 have rect: "rectangular bs" by (simp add: rectangular_def list_all_iff)
  have cols: "[0..<length (hd bs)] = [0, 1]" using hd2 by (simp add: upt_rec)
  show ?thesis using ne rect by (simp add: aggregate_def mean_axis0_def cols)
qed

lemma scan_body_two_columns:
  assumes "two_columns (qc_run (noisy_job noise theta t1))"
  shows "\<exists>z0 z1 zz. aggregate (qc_run (noisy_job noise theta t1)) = Inr (z0, z1, zz)
     \<and> scan_body noise qc_run theta t1
        = Inr [(''z0'', z0), (''z1'', z1), (''zz'', zz), (''theta'', theta), (''t1'', t1)]"
  using two_columns_aggregate[OF assms] by (auto simp: scan_body_def)

lemma inner_loop_all_ok:
  assumes "\<forall>t1\<in>set ts. \<exists>r. scan_body noise qc_run theta t1 = Inr r"
  shows "inner_loop noise qc_run theta ts acc
       = Inr (acc @ map (\<lambda>t1. projr (scan_body noise qc_run theta t1)) ts)"
  using assms by (induction ts arbitrary: acc) auto

lemma outer_loop_all_ok:
  assumes "\<forall>theta\<in>set ths. \<forall>t1\<in>set t1s. \<exists>r. scan_body noise qc_run theta t1 = Inr r"
  shows "outer_loop noise qc_run ths acc
       = Inr (acc @ concat (map (\<lambda>theta. map (\<lambda>t1. projr (scan_body noise qc_run theta t1)) t1s) ths))"
  using assms by (induction ths arbitrary: acc) (simp_all add: inner_loop_all_ok)

lemma nth_concat_uniform:
  assumes "\<forall>xs\<in>set xss. length xs = n" "i < length xss" "j < n"
  shows "concat xss ! (n * i + j) = xss ! i ! j"
  using assms
proof (induction xss arbitrary: i)
  case Nil
  then show ?case by simp
next
  case (Cons xs xss)
  show ?case
  proof (cases i)
    case 0
    with Cons.prems show ?thesis by (simp add: nth_append)
  next
    case (Suc k)
    with Cons.prems have "concat xss ! (n * k + j) = xss ! k ! j"
      by (intro Cons.IH) auto
    moreover have "length xs = n" using Cons.prems by simp
    ultimately show ?thesis using Suc by (simp add: nth_append add.assoc)
  qed
qed

lemma length_concat_uniform:
  assumes "\<forall>xs\<in>set xss. length xs = n"
  shows "length (concat xss) = n * length xss"
  using assms by (induction xss) auto

lemma length_thetas: "length thetas = 20"
  by (simp add: thetas_def linspace_def)

lemma length_t1s: "length t1s = 3"
  by (simp add: t1s_def logspace_def linspace_def)

lemma hd_thetas: "hd thetas = - pi"
  by (simp add: thetas_def linspace_def upt_rec hd_map)

lemma last_thetas: "last thetas = pi"
  by (simp add: thetas_def linspace_def last_map)

text \<open>
  C5. The scan is one nested loop, theta outside (20 values from - pi to pi) and t1
  inside (3 values). When the simulator returns a non-empty two-column array at every
  grid point, the scan ends with exactly 60 records, the record of the i-th theta and
  the j-th t1 at position 3 * i + j; each record has the keys z0, z1, zz, theta, t1 in
  this order, and its expectation values come from the program built by
  add_decoherence_noise with T1 = t1 and T2 = t1 / 2, measured and run with 1000 shots.
\<close>

theorem scan_appends_grid:
  assumes "\<forall>theta\<in>set thetas. \<forall>t1\<in>set t1s. two_columns (qc_run (noisy_job noise theta t1))"
  shows "length thetas = 20 \<and> hd thetas = - pi \<and> last thetas = pi \<and> length t1s = 3
    \<and> (\<exists>rs. records noise qc_run = Inr rs \<and> length rs = 60
        \<and> (\<forall>i<20. \<forall>j<3. \<exists>z0 z1 zz.
              aggregate (qc_run (wrap_in_numshots_loop
                 (inst (noise (program_declare (get_compiled_prog (thetas ! i)) ''ro'' 2)
                          (t1s ! j) (t1s ! j / 2))
                    [MEASURE 0 (MemoryReference ''ro'' 0), MEASURE 1 (MemoryReference ''ro'' 1)])
                 1000)) = Inr (z0, z1, zz)
              \<and> rs ! (3 * i + j)
                = [(''z0'', z0), (''z1'', z1), (''zz'', zz),
                   (''theta'', thetas ! i), (''t1'', t1s ! j)]))"
proof -
  let ?rec = "\<lambda>theta t1. projr (scan_body noise qc_run theta t1)"
  let ?rows = "map (\<lambda>theta. map (?rec theta) t1s) thetas"
  have ok: "\<forall>theta\<in>set thetas. \<forall>t1\<in>set t1s. \<exists>r. scan_body noise qc_run theta t1 = Inr r"
    using assms scan_body_two_columns by blast
  have recs: "records noise qc_run = Inr (concat ?rows)"
    using outer_loop_all_ok[OF ok, of "[]"] by (simp add: records_def)
  have uniform: "\<forall>xs\<in>set ?rows. length xs = 3"
    by (simp add: length_t1s)
  have len: "length (concat ?rows) = 60"
    using length_concat_uniform[OF uniform] by (simp add: length_thetas)
  have grid: "\<exists>z0 z1 zz.
      aggregate (qc_run (wrap_in_numshots_loop
         (inst (noise (program_declare (get_compiled_prog (thetas ! i)) ''ro'' 2)
                  (t1s ! j) (t1s ! j / 2))
            [MEASURE 0 (MemoryReference ''ro'' 0), MEASURE 1 (MemoryReference ''ro'' 1)])
         1000)) = Inr (z0, z1, zz)
      \<and> concat ?rows ! (3 * i + j)
        = [(''z0'', z0), (''z1'', z1), (''zz'', zz), (''theta'', thetas ! i), (''t1'', t1s ! j)]"
    if i: "i < 20" and j: "j < 3" for i j
  proof -
    have ti: "thetas ! i \<in> set thetas" using i by (simp add: length_thetas)
    have tj: "t1s ! j \<in> set t1s" using j by (simp add: length_t1s)
    from assms ti tj have "two_columns (qc_run (noisy_job noise (thetas ! i) (t1s ! j)))"
      by blast
    from scan_body_two_columns[of qc_run noise "thetas ! i" "t1s ! j", OF this]
    obtain z0 z1 zz where
      agg: "aggregate (qc_run (noisy_job noise (thetas ! i) (t1s ! j))) = Inr (z0, z1, zz)" and
      body: "scan_body noise qc_run (thetas ! i) (t1s ! j)
        = Inr [(''z0'', z0), (''z1'', z1), (''zz'', zz),
               (''theta'', thetas ! i), (''t1'', t1s ! j)]"
      by blast
    have "concat ?rows ! (3 * i + j) = ?rows ! i ! j"
      using i j by (intro nth_concat_uniform[OF uniform]) (simp_all add: length_thetas)
    also have "\<dots> = ?rec (thetas ! i) (t1s ! j)"
      using i j by (simp add: length_thetas length_t1s)
    finally have "concat ?rows ! (3 * i + j)
        = [(''z0'', z0), (''z1'', z1), (''zz'', zz), (''theta'', thetas ! i), (''t1'', t1s ! j)]"
      by (simp add: body)
    with agg show ?thesis by (auto simp: noisy_job_def Let_def)
  qed
  from recs len grid show ?thesis
    by (simp add: length_thetas length_t1s hd_thetas last_thetas)
qed


lemma aggregate_single_01: "aggregate [[0, 1]] = Inr (1, - 1, - 1)"
  by (simp add: aggregate_def rectangular_def mean_axis0_def np_mean_def sum_axis1_def upt_rec
      f64_zero f64_one f64_minus_one f64_half)

lemma thetas_0: "thetas ! 0 = - pi"
  by (simp add: thetas_def linspace_def upt_rec)

lemma t1s_0: "t1s ! 0 = 10 powr (- 6)"
  by (simp add: t1s_def logspace_def linspace_def upt_rec)

theorem scan_appends_grid_witness:
  "length thetas = 20 \<and> hd thetas = - pi \<and> last thetas = pi \<and> length t1s = 3
    \<and> (\<exists>rs. records (\<lambda>p T1 T2. p) (\<lambda>p. [[0, 1]]) = Inr rs \<and> length rs = 60
          \<and> rs ! 0 = [(''z0'', 1), (''z1'', - 1), (''zz'', - 1),
                       (''theta'', - pi), (''t1'', 10 powr (- 6))])"
proof -
  have shape: "\<forall>theta\<in>set thetas. \<forall>t1\<in>set t1s.
      two_columns ((\<lambda>p. [[0, 1]]) (noisy_job (\<lambda>p T1 T2. p) theta t1))"
    by (simp add: two_columns_def)
  from scan_appends_grid[of "\<lambda>p. [[0, 1]]" "\<lambda>p T1 T2. p", OF shape]
  obtain rs where sizes: "length thetas = 20" "hd thetas = - pi" "last thetas = pi" "length t1s = 3"
    and rs: "records (\<lambda>p T1 T2. p) (\<lambda>p. [[0, 1]]) = Inr rs" "length rs = 60"
    and grid: "\<forall>i<20. \<forall>j<3. \<exists>z0 z1 zz. aggregate [[0, 1]] = Inr (z0, z1, zz)
        \<and> rs ! (3 * i + j) = [(''z0'', z0), (''z1'', z1), (''zz'', zz),
                               (''theta'', thetas ! i), (''t1'', t1s ! j)]"
    by auto
  from grid have "\<exists>z0 z1 zz. aggregate [[0, 1]] = Inr (z0, z1, zz)
        \<and> rs ! (3 * 0 + 0) = [(''z0'', z0), (''z1'', z1), (''zz'', zz),
                               (''theta'', thetas ! 0), (''t1'', t1s ! 0)]"
    by (metis zero_less_numeral)
  then have "rs ! 0 = [(''z0'', 1), (''z1'', - 1), (''zz'', - 1),
                       (''theta'', - pi), (''t1'', 10 powr (- 6))]"
    by (auto simp: aggregate_single_01 thetas_0 t1s_0)
  with sizes rs show ?thesis by simp
qed

text \<open>
  C6. For every theta the compiled program is the same sequence of 15 instructions,
  each an RZ, an RX by plus or minus pi / 2 or a CZ on the qubits 0 and 1; the
  instruction at position 7 is RZ theta 1, and the programs of two angles differ in
  nothing but that instruction.
\<close>

theorem compiled_prog_fixed:
  "length (instructions (get_compiled_prog theta)) = 15
   \<and> list_all native_on_01 (instructions (get_compiled_prog theta))
   \<and> instructions (get_compiled_prog theta) ! 7 = RZ theta 1
   \<and> take 7 (instructions (get_compiled_prog theta1)) = take 7 (instructions (get_compiled_prog theta2))
   \<and> drop 8 (instructions (get_compiled_prog theta1)) = drop 8 (instructions (get_compiled_prog theta2))
   \<and> get_compiled_prog theta2
     = (get_compiled_prog theta1)\<lparr>instructions :=
          (instructions (get_compiled_prog theta1))[7 := RZ theta2 1]\<rparr>"
proof -
  have rz: "native_on_01 (RZ a q)" if "q < 2" for a q
    using that by (auto simp: native_on_01_def)
  have rx: "native_on_01 (RX (pi / 2) q)" "native_on_01 (RX (- (pi / 2)) q)" if "q < 2" for q
    using that by (auto simp: native_on_01_def)
  have cz: "native_on_01 (CZ c t)" if "c < 2" "t < 2" for c t
    using that by (auto simp: native_on_01_def)
  have "list_all native_on_01 (instructions (get_compiled_prog theta))"
    by (simp add: get_compiled_prog_def Program_def rz rx cz)
  then show ?thesis
    by (simp add: get_compiled_prog_def Program_def)
qed

lemma aggregate_Inr_shape:
  assumes "aggregate bs = Inr zs"
  shows "two_columns bs"
proof -
  from assms have ne: "bs \<noteq> []" and rect: "rectangular bs"
    by (auto simp: aggregate_def split: if_splits)
  have "length (hd bs) = 2"
  proof (rule ccontr)
    assume "length (hd bs) \<noteq> 2"
    then have "length (map (\<lambda>m. 1 - 2 * m) (mean_axis0 bs)) \<noteq> 2"
      by (simp add: mean_axis0_def)
    then have "aggregate bs = Inl ValueError"
      using ne rect by (auto simp: aggregate_def split: list.splits)
    with assms show False by simp
  qed
  with ne rect show ?thesis
    by (simp add: two_columns_def rectangular_def)
qed

lemma bits_two_columns_bit_pairs:
  assumes "bits bs" "two_columns bs"
  shows "bs \<noteq> []" "bit_pairs bs"
  using assms by (simp_all add: bits_def two_columns_def bit_pairs_def list_all_iff)

lemma scan_body_bounded:
  assumes "scan_body noise qc_run theta t1 = Inr r"
    and "bits (qc_run (noisy_job noise theta t1))"
  shows "bounded_record r"
proof -
  let ?bs = "qc_run (noisy_job noise theta t1)"
  from assms(1) obtain zs where zs: "aggregate ?bs = Inr zs"
    by (auto simp: scan_body_def split: sum.splits)
  from bits_two_columns_bit_pairs[OF assms(2) aggregate_Inr_shape[OF zs]]
  have "?bs \<noteq> []" "bit_pairs ?bs" .
  from aggregate_range[OF this] obtain z0 z1 zz where
    "aggregate ?bs = Inr (z0, z1, zz)"
    "- 1 \<le> z0" "z0 \<le> 1" "- 1 \<le> z1" "z1 \<le> 1" "- 1 \<le> zz" "zz \<le> 1"
    by blast
  with assms(1) show ?thesis
    by (auto simp: scan_body_def bounded_record_def in_unit_range_def)
qed

lemma inner_loop_bounded:
  assumes "\<forall>t1\<in>set ts. bits (qc_run (noisy_job noise theta t1))"
    and "list_all bounded_record acc"
  shows "list_all bounded_record (appended (inner_loop noise qc_run theta ts acc))"
  using assms
proof (induction ts arbitrary: acc)
  case Nil
  then show ?case by (simp add: appended_def)
next
  case (Cons t1 ts)
  show ?case
  proof (cases "scan_body noise qc_run theta t1")
    case (Inl e)
    with Cons.prems show ?thesis by (simp add: appended_def)
  next
    case (Inr r)
    with Cons.prems have "bounded_record r"
      by (intro scan_body_bounded[OF Inr]) simp
    with Cons.prems have "list_all bounded_record (acc @ [r])" by simp
    with Cons.prems Cons.IH[of "acc @ [r]"] Inr show ?thesis by simp
  qed
qed

lemma outer_loop_bounded:
  assumes "\<forall>theta\<in>set ths. \<forall>t1\<in>set t1s. bits (qc_run (noisy_job noise theta t1))"
    and "list_all bounded_record acc"
  shows "list_all bounded_record (appended (outer_loop noise qc_run ths acc))"
  using assms
proof (induction ths arbitrary: acc)
  case Nil
  then show ?case by (simp add: appended_def)
next
  case (Cons theta ths)
  from Cons.prems have inner:
    "list_all bounded_record (appended (inner_loop noise qc_run theta t1s acc))"
    by (intro inner_loop_bounded) simp_all
  show ?case
  proof (cases "inner_loop noise qc_run theta t1s acc")
    case (Inl failed)
    with inner show ?thesis by simp
  next
    case (Inr acc')
    with inner have "list_all bounded_record acc'" by (simp add: appended_def)
    with Cons.prems Cons.IH[of acc'] Inr show ?thesis by simp
  qed
qed

lemma aggregate_bits_range:
  assumes "bits bs" "aggregate bs = Inr (z0, z1, zz)"
  shows "- 1 \<le> z0 \<and> z0 \<le> 1 \<and> - 1 \<le> z1 \<and> z1 \<le> 1 \<and> - 1 \<le> zz \<and> zz \<le> 1"
proof -
  from bits_two_columns_bit_pairs[OF assms(1) aggregate_Inr_shape[OF assms(2)]]
  have "bs \<noteq> []" "bit_pairs bs" .
  from aggregate_range[OF this] assms(2) show ?thesis by auto
qed

text \<open>
  C10. For a non-empty array of bit pairs the aggregation returns z0, z1 and zz, each
  between - 1 and 1; for any array of bits, whatever the aggregation returns lies in
  that range; and whatever bits the simulator returns, every record the scan has
  appended, whether the scan ends or fails on the way, has its z0, z1 and zz between
  - 1 and 1.
\<close>

theorem expectation_values_bounded:
  "(bs \<noteq> [] \<and> bit_pairs bs \<longrightarrow>
      (\<exists>z0 z1 zz. aggregate bs = Inr (z0, z1, zz)
         \<and> - 1 \<le> z0 \<and> z0 \<le> 1 \<and> - 1 \<le> z1 \<and> z1 \<le> 1 \<and> - 1 \<le> zz \<and> zz \<le> 1))
   \<and> (bits bs' \<and> aggregate bs' = Inr (z0', z1', zz') \<longrightarrow>
        - 1 \<le> z0' \<and> z0' \<le> 1 \<and> - 1 \<le> z1' \<and> z1' \<le> 1 \<and> - 1 \<le> zz' \<and> zz' \<le> 1)
   \<and> ((\<forall>theta\<in>set thetas. \<forall>t1\<in>set t1s. bits (qc_run (noisy_job noise theta t1))) \<longrightarrow>
        list_all bounded_record (appended (records noise qc_run)))"
  using aggregate_range[of bs] aggregate_bits_range[of bs' z0' z1' zz']
    outer_loop_bounded[of thetas qc_run noise "[]"]
  by (simp add: records_def)

theorem expectation_values_bounded_witness:
  "(\<exists>z0 z1 zz. aggregate [[0, 1], [1, 1]] = Inr (z0, z1, zz)
         \<and> - 1 \<le> z0 \<and> z0 \<le> 1 \<and> - 1 \<le> z1 \<and> z1 \<le> 1 \<and> - 1 \<le> zz \<and> zz \<le> 1)
   \<and> aggregate [[1, 1], [1, 1]] = Inr (- 1, - 1, 1)
   \<and> list_all bounded_record (appended (records (\<lambda>p T1 T2. p) (\<lambda>p. [[0, 1], [1, 1]])))"
proof -
  have ones: "aggregate [[1, 1], [1, 1]] = Inr (- 1, - 1, 1)"
    by (simp add: aggregate_def rectangular_def mean_axis0_def np_mean_def sum_axis1_def upt_rec
      f64_zero f64_one f64_minus_one f64_half)
  show ?thesis
    using expectation_values_bounded[of "[[0, 1], [1, 1]]" "[[1, 1], [1, 1]]" "- 1" "- 1" 1
        "\<lambda>p. [[0, 1], [1, 1]]" "\<lambda>p T1 T2. p"]
    by (simp add: bit_pairs_def bits_def ones)
qed

section \<open>Properties of addressing and of the placeholder notebook\<close>

lemma address_qubit_resolved:
  "address_qubit m q = Inr q' \<longleftrightarrow> resolved_by m q q'"
  by (auto simp: address_qubit_def resolved_by_def split: option.splits)

lemma address_all_resolved:
  "address_all m qs = Inr qs' \<Longrightarrow> list_all2 (resolved_by m) qs qs'"
proof (induction qs arbitrary: qs')
  case Nil
  then show ?case by simp
next
  case (Cons q qs)
  then show ?case
    by (auto simp: address_qubit_resolved split: sum.splits)
qed

lemma address_instr_resolved:
  "address_instr m i = Inr i' \<Longrightarrow> list_all2 (resolved_by m) (instr_qubits i) (instr_qubits i')"
  by (cases i) (auto simp: address_qubit_resolved dest: address_all_resolved split: sum.splits)

lemma address_instrs_resolved:
  "address_instrs m is = Inr is'
   \<Longrightarrow> list_all2 (resolved_by m) (concat (map instr_qubits is)) (concat (map instr_qubits is'))"
proof (induction "is" arbitrary: is')
  case Nil
  then show ?case by simp
next
  case (Cons i rest)
  then show ?case
    by (auto split: sum.splits intro!: list_all2_appendI address_instr_resolved)
qed

















lemma placeholders_cell:
  "cell_placeholders empty_notebook =
     \<lparr>memory = \<lparr>objects = (\<lambda>r. Program [])(0 := Program [H q0, CNOT q0 q1]), next_ref = 1\<rparr>,
      prog = 0, stdout = [Quil [H q0, CNOT q0 q1]]\<rparr>"
  by (simp add: cell_placeholders_def empty_notebook_def new_object_def print_def Program_def)

lemma prog_qubits: "program_qubits (Program [H q0, CNOT q0 q1]) = [q0, q0, q1]"
  by (simp add: program_qubits_def Program_def H_def CNOT_def)

lemma prog_has_placeholder: "list_ex is_placeholder (program_qubits (Program [H q0, CNOT q0 q1]))"
  unfolding prog_qubits by (simp add: q0_def)



lemma address_prog_explicit:
  "address_instrs [(q0, 14), (q1, 19)] [H q0, CNOT q0 q1]
     = Inr [H (Qubit 14), CNOT (Qubit 14) (Qubit 19)]"
  by (simp add: H_def CNOT_def address_qubit_def q0_def q1_def)


lemma address_qubits_explicit_prog:
  assumes "objects h r = Program [H q0, CNOT q0 q1]"
  shows "address_qubits h r (Some [(q0, 14), (q1, 19)])
     = Inr (new_object h (Program [H (Qubit 14), CNOT (Qubit 14) (Qubit 19)]))"
  using assms address_prog_explicit
  by (simp add: address_qubits_def Program_def)

lemma address_qubits_result:
  assumes "address_qubits h program qm = Inr (h', r')"
  shows "r' = next_ref h" "next_ref h' = Suc (next_ref h)"
    "\<forall>ref. ref \<noteq> next_ref h \<longrightarrow> objects h' ref = objects h ref"
    "address_instrs (case qm of None \<Rightarrow> default_mapping (objects h program) | Some m \<Rightarrow> m)
        (instructions (objects h program)) = Inr (instructions (objects h' r'))"
  using assms
  by (auto simp: address_qubits_def new_object_def Let_def split: sum.splits)

text \<open>
  C4. Addressing with an explicit mapping gives every placeholder exactly the index the
  mapping has for it and leaves the other qubits alone; for the notebook's program
  H q0, CNOT q0 q1 and the mapping q0 to 14, q1 to 19 the result is H 14, CNOT 14 19,
  with no other qubit in it.
\<close>

theorem explicit_mapping_assigns:
  "(address_qubits h program (Some m) = Inr (h', r') \<longrightarrow>
      list_all2 (resolved_by m)
        (program_qubits (objects h program)) (program_qubits (objects h' r')))
   \<and> (\<exists>h r. address_qubits (memory (cell_placeholders empty_notebook))
                 (prog (cell_placeholders empty_notebook)) (Some [(q0, 14), (q1, 19)]) = Inr (h, r)
          \<and> instructions (objects h r) = [H (Qubit 14), CNOT (Qubit 14) (Qubit 19)]
          \<and> set (program_qubits (objects h r)) = {Qubit 14, Qubit 19})"
proof -
  have general: "list_all2 (resolved_by m)
        (program_qubits (objects h program)) (program_qubits (objects h' r'))"
    if "address_qubits h program (Some m) = Inr (h', r')"
    using address_qubits_result(4)[OF that] address_instrs_resolved
    by (simp add: program_qubits_def)
  have "objects (memory (cell_placeholders empty_notebook)) (prog (cell_placeholders empty_notebook))
      = Program [H q0, CNOT q0 q1]"
    by (simp add: placeholders_cell)
  from address_qubits_explicit_prog[OF this]
  have "\<exists>h r. address_qubits (memory (cell_placeholders empty_notebook))
                 (prog (cell_placeholders empty_notebook)) (Some [(q0, 14), (q1, 19)]) = Inr (h, r)
          \<and> instructions (objects h r) = [H (Qubit 14), CNOT (Qubit 14) (Qubit 19)]
          \<and> set (program_qubits (objects h r)) = {Qubit 14, Qubit 19}"
    by (auto simp: new_object_def Program_def program_qubits_def H_def CNOT_def)
  with general show ?thesis by blast
qed


theorem explicit_mapping_assigns_witness:
  "\<exists>h r. address_qubits (memory (cell_placeholders empty_notebook))
            (prog (cell_placeholders empty_notebook)) (Some [(q0, 14), (q1, 19)]) = Inr (h, r)
      \<and> instructions (objects h r) = [H (Qubit 14), CNOT (Qubit 14) (Qubit 19)]
      \<and> list_all2 (resolved_by [(q0, 14), (q1, 19)]) [q0, q0, q1] (program_qubits (objects h r))"
proof -
  let ?nb = "cell_placeholders empty_notebook"
  have input: "program_qubits (objects (memory ?nb) (prog ?nb)) = [q0, q0, q1]"
    by (simp add: placeholders_cell prog_qubits)
  from explicit_mapping_assigns obtain h r where
    call: "address_qubits (memory ?nb) (prog ?nb) (Some [(q0, 14), (q1, 19)]) = Inr (h, r)"
    and result: "instructions (objects h r) = [H (Qubit 14), CNOT (Qubit 14) (Qubit 19)]"
    by blast
  from explicit_mapping_assigns[of "memory ?nb" "prog ?nb" "[(q0, 14), (q1, 19)]" h r] call
  have "list_all2 (resolved_by [(q0, 14), (q1, 19)])
      (program_qubits (objects (memory ?nb) (prog ?nb))) (program_qubits (objects h r))"
    by blast
  with call result input show ?thesis by auto
qed




lemma inner_loop_fails:
  assumes "t1 \<in> set ts" "scan_body noise qc_run theta t1 = Inl e"
  shows "\<exists>e' rs. inner_loop noise qc_run theta ts acc = Inl (e', rs)"
  using assms
proof (induction ts arbitrary: acc)
  case Nil
  then show ?case by simp
next
  case (Cons t ts)
  show ?case
  proof (cases "scan_body noise qc_run theta t")
    case (Inl e0)
    then show ?thesis by simp
  next
    case (Inr r)
    with Cons.prems have "t1 \<in> set ts" by auto
    from Cons.IH[OF this Cons.prems(2), of "acc @ [r]"] Inr show ?thesis by simp
  qed
qed

lemma outer_loop_fails:
  assumes "theta \<in> set ths" "t1 \<in> set t1s" "scan_body noise qc_run theta t1 = Inl e"
  shows "\<exists>e' rs. outer_loop noise qc_run ths acc = Inl (e', rs)"
  using assms
proof (induction ths arbitrary: acc)
  case Nil
  then show ?case by simp
next
  case (Cons th ths)
  show ?case
  proof (cases "inner_loop noise qc_run th t1s acc")
    case (Inl failed)
    then show ?thesis by (cases failed) simp
  next
    case (Inr acc')
    have "th \<noteq> theta"
    proof
      assume "th = theta"
      with inner_loop_fails[OF Cons.prems(2,3), of acc] Inr show False by simp
    qed
    with Cons.prems have "theta \<in> set ths" by simp
    from Cons.IH[OF this Cons.prems(2,3), of acc'] Inr show ?thesis by simp
  qed
qed

text \<open>
  C3. Program.out raises RuntimeError on a program with a placeholder. The cell with
  try prints the message of a RuntimeError and changes nothing else of the notebook's
  state; any other error of out leaves the cell as it is raised, the addressing cells
  pass on every error of address_qubits, and an error at a grid point ends the scan of
  the noise notebook as a failure. In the notebook the cell prints the message and
  the program stays as it was.
\<close>

theorem only_runtime_error_is_caught:
  "(list_ex is_placeholder (program_qubits p) \<longrightarrow> out p = Inl (RuntimeError unaddressed))
   \<and> (out_method (objects (memory nb) (prog nb)) = Inl (RuntimeError msg) \<longrightarrow>
        cell_try_out out_method nb = Inr (nb\<lparr>stdout := stdout nb @ [Message msg]\<rparr>))
   \<and> (raising (objects (memory nb) (prog nb)) = Inl err \<and> (\<forall>text. err \<noteq> RuntimeError text) \<longrightarrow>
        cell_try_out raising nb = Inl err)
   \<and> (address_qubits (memory nb) (prog nb) qm = Inl err' \<longrightarrow> cell_address qm nb = Inl err')
   \<and> (theta \<in> set thetas \<and> t1 \<in> set t1s \<and> scan_body noise qc_run theta t1 = Inl err'' \<longrightarrow>
        (\<exists>e rs. records noise qc_run = Inl (e, rs)))
   \<and> (\<exists>nb'. cell_try_out out (cell_placeholders empty_notebook) = Inr nb'
        \<and> memory nb' = memory (cell_placeholders empty_notebook)
        \<and> prog nb' = prog (cell_placeholders empty_notebook)
        \<and> stdout nb' = stdout (cell_placeholders empty_notebook) @ [Message unaddressed])"
proof -
  have raises: "out p = Inl (RuntimeError unaddressed)"
    if "list_ex is_placeholder (program_qubits p)" for p
    using that by (simp add: out_def)
  have caught: "cell_try_out out_method nb = Inr (nb\<lparr>stdout := stdout nb @ [Message msg]\<rparr>)"
    if "out_method (objects (memory nb) (prog nb)) = Inl (RuntimeError msg)"
    using that by (simp add: cell_try_out_def print_def)
  have escapes: "cell_try_out raising nb = Inl err"
    if "raising (objects (memory nb) (prog nb)) = Inl err" "\<forall>text. err \<noteq> RuntimeError text"
    using that by (cases err) (simp_all add: cell_try_out_def)
  have address: "cell_address qm nb = Inl err'"
    if "address_qubits (memory nb) (prog nb) qm = Inl err'"
    using that by (simp add: cell_address_def)
  have scan: "\<exists>e rs. records noise qc_run = Inl (e, rs)"
    if "theta \<in> set thetas" "t1 \<in> set t1s" "scan_body noise qc_run theta t1 = Inl err''"
    unfolding records_def using that by (rule outer_loop_fails)
  let ?nb = "cell_placeholders empty_notebook"
  have "list_ex is_placeholder (program_qubits (objects (memory ?nb) (prog ?nb)))"
    by (simp add: placeholders_cell prog_has_placeholder)
  then have "out (objects (memory ?nb) (prog ?nb)) = Inl (RuntimeError unaddressed)"
    by (rule raises)
  then have "cell_try_out out ?nb = Inr (?nb\<lparr>stdout := stdout ?nb @ [Message unaddressed]\<rparr>)"
    by (simp add: cell_try_out_def print_def)
  then have "\<exists>nb'. cell_try_out out ?nb = Inr nb' \<and> memory nb' = memory ?nb
      \<and> prog nb' = prog ?nb \<and> stdout nb' = stdout ?nb @ [Message unaddressed]"
    by simp
  with raises caught escapes address scan show ?thesis by blast
qed

lemma aggregate_empty: "aggregate [] = Inl TypeError"
  by (simp add: aggregate_def)

theorem only_runtime_error_is_caught_witness:
  "out (Program [H q0, CNOT q0 q1]) = Inl (RuntimeError unaddressed)
   \<and> cell_try_out out (cell_placeholders empty_notebook)
       = Inr ((cell_placeholders empty_notebook)
               \<lparr>stdout := stdout (cell_placeholders empty_notebook) @ [Message unaddressed]\<rparr>)
   \<and> cell_try_out (\<lambda>p. Inl KeyError) (cell_placeholders empty_notebook) = Inl KeyError
   \<and> cell_address (Some []) (cell_placeholders empty_notebook) = Inl KeyError
   \<and> (\<exists>e rs. records (\<lambda>p T1 T2. p) (\<lambda>p. []) = Inl (e, rs))"
proof -
  let ?p = "Program [H q0, CNOT q0 q1]"
  let ?nb = "cell_placeholders empty_notebook"
  note inst = only_runtime_error_is_caught[of ?p out ?nb unaddressed "\<lambda>p. Inl KeyError" KeyError
      "Some []" KeyError "thetas ! 0" "t1s ! 0" "\<lambda>p T1 T2. p" "\<lambda>p. []" TypeError]
  have obj: "objects (memory ?nb) (prog ?nb) = ?p" by (simp add: placeholders_cell)
  have ph: "list_ex is_placeholder (program_qubits ?p)" by (rule prog_has_placeholder)
  with inst have raised: "out ?p = Inl (RuntimeError unaddressed)" by blast
  with inst obj have caught: "cell_try_out out ?nb
       = Inr (?nb\<lparr>stdout := stdout ?nb @ [Message unaddressed]\<rparr>)"
    by simp
  from inst have escapes: "cell_try_out (\<lambda>p. Inl KeyError) ?nb = Inl KeyError" by simp
  have "address_qubits (memory ?nb) (prog ?nb) (Some []) = Inl KeyError"
    by (simp add: obj address_qubits_def Program_def H_def address_qubit_def q0_def)
  with inst have address: "cell_address (Some []) ?nb = Inl KeyError" by blast
  have grid: "thetas ! 0 \<in> set thetas" "t1s ! 0 \<in> set t1s"
    by (simp_all add: length_thetas length_t1s)
  have "scan_body (\<lambda>p T1 T2. p) (\<lambda>p. []) (thetas ! 0) (t1s ! 0) = Inl TypeError"
    by (simp add: scan_body_def aggregate_empty)
  with inst grid have "\<exists>e rs. records (\<lambda>p T1 T2. p) (\<lambda>p. []) = Inl (e, rs)" by blast
  with raised caught escapes address show ?thesis by blast
qed

end
